theory Spec2Isabelle
  imports Main
begin

section \<open>Values carried by client messages\<close>

text \<open>
  The handlers of \<^verbatim>\<open>backend/server.js\<close> destructure a JSON payload. A field is
  modelled as \<open>string option\<close>: \<open>None\<close> is a field that is absent
  (\<^verbatim>\<open>undefined\<close>), \<open>Some s\<close> a field holding the text \<open>s\<close>. Strings are
  Isabelle strings, so a character stands for a code unit below 256.

  \<open>truthy\<close> is the test \<^verbatim>\<open>!x\<close> negated: an absent field and the empty string are
  falsy. \<open>dflt\<close> is a destructuring default (\<^verbatim>\<open>{ sessionId = "default" }\<close>), which
  applies to an absent field only. Every message carries a payload object, the content
  of a \<^verbatim>\<open>file:update\<close> is a text, and the store answers every command: a message
  without payload and a store that is down are outside the model.
\<close>

type_synonym socket_id = string

definition truthy :: "string option \<Rightarrow> bool" where
  "truthy v = (case v of None \<Rightarrow> False | Some s \<Rightarrow> s \<noteq> [])"

definition dflt :: "string \<Rightarrow> string option \<Rightarrow> string" where
  "dflt d v = (case v of None \<Rightarrow> d | Some s \<Rightarrow> s)"

section \<open>The shared store and the real-time channel\<close>

definition sessionKey :: "string \<Rightarrow> string" where
  "sessionKey sessionId = ''session:'' @ sessionId"

definition filesKey :: "string \<Rightarrow> string" where
  "filesKey sessionId = sessionKey sessionId @ '':files''"

definition usersKey :: "string \<Rightarrow> string" where
  "usersKey sessionId = sessionKey sessionId @ '':users''"

text \<open>
  Events sent to clients. \<open>ChatMessage\<close> carries \<^verbatim>\<open>userName\<close> and \<^verbatim>\<open>text\<close> as they
  arrived (the handler forwards them untouched) and the value of \<^verbatim>\<open>Date.now()\<close>.
\<close>

datatype event =
    SessionInit "string \<rightharpoonup> string" "string set"
  | UserJoin string
  | UserLeft string
  | FileUpdated string string
  | FileCreated string string
  | FileDeleted string
  | ChatMessage "string option" "string option" nat

text \<open>
  The state the handlers read and write: the two kinds of Redis value the server uses
  (a hash per \<open>filesKey\<close>, a set per \<open>usersKey\<close>; a key that does not exist reads as the
  empty hash or set), the in-memory \<^verbatim>\<open>socketUser\<close> map, the membership of the
  Socket.IO rooms, and the log of emit calls in the order they were made, each with the
  set of sockets it reaches.
\<close>

record server =
  redis_hash :: "string \<Rightarrow> (string \<rightharpoonup> string)"
  redis_set :: "string \<Rightarrow> string set"
  socketUser :: "socket_id \<rightharpoonup> (string \<times> string)"
  rooms :: "string \<Rightarrow> socket_id set"
  emitted :: "(socket_id set \<times> event) list"

definition init_server :: server where
  "init_server = \<lparr>redis_hash = (\<lambda>_. Map.empty), redis_set = (\<lambda>_. {}),
     socketUser = Map.empty, rooms = (\<lambda>_. {}), emitted = []\<rparr>"

definition hset :: "server \<Rightarrow> string \<Rightarrow> string \<Rightarrow> string \<Rightarrow> server" where
  "hset st key field v = st\<lparr>redis_hash := (redis_hash st)(key := (redis_hash st key)(field \<mapsto> v))\<rparr>"

definition hdel :: "server \<Rightarrow> string \<Rightarrow> string \<Rightarrow> server" where
  "hdel st key field = st\<lparr>redis_hash := (redis_hash st)(key := (redis_hash st key)(field := None))\<rparr>"

definition hgetall :: "server \<Rightarrow> string \<Rightarrow> (string \<rightharpoonup> string)" where
  "hgetall st key = redis_hash st key"

definition sadd :: "server \<Rightarrow> string \<Rightarrow> string \<Rightarrow> server" where
  "sadd st key member = st\<lparr>redis_set := (redis_set st)(key := insert member (redis_set st key))\<rparr>"

definition srem :: "server \<Rightarrow> string \<Rightarrow> string \<Rightarrow> server" where
  "srem st key member = st\<lparr>redis_set := (redis_set st)(key := redis_set st key - {member})\<rparr>"

definition smembers :: "server \<Rightarrow> string \<Rightarrow> string set" where
  "smembers st key = redis_set st key"

text \<open>
  \<^verbatim>\<open>socket.join(room)\<close>, and the three ways the server emits: to the socket itself,
  to the room without the socket (\<^verbatim>\<open>socket.to(room).emit\<close>), to the whole room
  (\<^verbatim>\<open>io.in(room).emit\<close>).
\<close>

definition socket_join :: "server \<Rightarrow> socket_id \<Rightarrow> string \<Rightarrow> server" where
  "socket_join st k room = st\<lparr>rooms := (rooms st)(room := insert k (rooms st room))\<rparr>"

definition socket_emit :: "server \<Rightarrow> socket_id \<Rightarrow> event \<Rightarrow> server" where
  "socket_emit st k e = st\<lparr>emitted := emitted st @ [({k}, e)]\<rparr>"

definition socket_to_emit :: "server \<Rightarrow> socket_id \<Rightarrow> string \<Rightarrow> event \<Rightarrow> server" where
  "socket_to_emit st k room e = st\<lparr>emitted := emitted st @ [(rooms st room - {k}, e)]\<rparr>"

definition io_in_emit :: "server \<Rightarrow> string \<Rightarrow> event \<Rightarrow> server" where
  "io_in_emit st room e = st\<lparr>emitted := emitted st @ [(rooms st room, e)]\<rparr>"

section \<open>Socket handlers\<close>

text \<open>
  Each handler takes the state, the socket \<open>k\<close> the message came from and the
  destructured fields, and returns the state after the handler has run to its end with
  nothing else running while it waits for the store. What the handlers do when other
  handlers run between their \<^verbatim>\<open>await\<close>s is the subject of the section on waiting
  handlers below.

  The join handler has three \<^verbatim>\<open>await\<close>s. \<open>join_sadd\<close> is what it does before the
  first (\<^verbatim>\<open>socket.join\<close>, \<^verbatim>\<open>socketUser.set\<close>, \<^verbatim>\<open>sadd\<close>); then it reads the files,
  then the users; \<open>join_emit\<close> is what it does after the last.
\<close>

definition join_sadd :: "server \<Rightarrow> socket_id \<Rightarrow> string \<Rightarrow> string \<Rightarrow> server" where
  "join_sadd st k sid un =
     (let st1 = socket_join st k sid;
          st2 = st1\<lparr>socketUser := (socketUser st1)(k \<mapsto> (sid, un))\<rparr>
      in sadd st2 (usersKey sid) un)"

definition join_emit ::
  "server \<Rightarrow> socket_id \<Rightarrow> string \<Rightarrow> string \<Rightarrow> (string \<rightharpoonup> string) \<Rightarrow> string set \<Rightarrow> server" where
  "join_emit st k sid un files users =
     (let st4 = socket_emit st k (SessionInit files users)
      in socket_to_emit st4 k sid (UserJoin un))"

definition on_join :: "server \<Rightarrow> socket_id \<Rightarrow> string option \<Rightarrow> string option \<Rightarrow> server" where
  "on_join st k sessionId userName =
     (let sid = dflt ''default'' sessionId;
          un = dflt ''Anonymous'' userName;
          st3 = join_sadd st k sid un;
          files = hgetall st3 (filesKey sid);
          users = smembers st3 (usersKey sid)
      in join_emit st3 k sid un files users)"

definition on_file_update ::
  "server \<Rightarrow> socket_id \<Rightarrow> string option \<Rightarrow> string option \<Rightarrow> string \<Rightarrow> server" where
  "on_file_update st k sessionId filename content =
     (let sid = dflt ''default'' sessionId in
      if \<not> truthy filename then st
      else let fn = the filename;
               st1 = hset st (filesKey sid) fn content
           in socket_to_emit st1 k sid (FileUpdated fn content))"

definition on_file_create ::
  "server \<Rightarrow> socket_id \<Rightarrow> string option \<Rightarrow> string option \<Rightarrow> string option \<Rightarrow> server" where
  "on_file_create st k sessionId filename content =
     (let sid = dflt ''default'' sessionId;
          c = dflt [] content in
      if \<not> truthy filename then st
      else let fn = the filename;
               st1 = hset st (filesKey sid) fn c
           in io_in_emit st1 sid (FileCreated fn c))"

definition on_file_delete ::
  "server \<Rightarrow> socket_id \<Rightarrow> string option \<Rightarrow> string option \<Rightarrow> server" where
  "on_file_delete st k sessionId filename =
     (let sid = dflt ''default'' sessionId in
      if \<not> truthy filename then st
      else let fn = the filename;
               st1 = hdel st (filesKey sid) fn
           in io_in_emit st1 sid (FileDeleted fn))"

definition on_chat_message ::
  "server \<Rightarrow> socket_id \<Rightarrow> nat \<Rightarrow> string option \<Rightarrow> string option \<Rightarrow> string option \<Rightarrow> server" where
  "on_chat_message st k now sessionId userName text' =
     (let sid = dflt ''default'' sessionId in
      io_in_emit st sid (ChatMessage userName text' now))"

text \<open>
  Socket.IO has taken the socket out of every room by the time the
  \<^verbatim>\<open>disconnect\<close> handler runs; the handler itself does the rest.
\<close>

definition on_disconnect :: "server \<Rightarrow> socket_id \<Rightarrow> server" where
  "on_disconnect st k =
     (let st0 = st\<lparr>rooms := (\<lambda>r. rooms st r - {k})\<rparr> in
      case socketUser st0 k of
        None \<Rightarrow> st0
      | Some (sid, un) \<Rightarrow>
          (let st1 = srem st0 (usersKey sid) un;
               st2 = socket_to_emit st1 k sid (UserLeft un)
           in st2\<lparr>socketUser := (socketUser st2)(k := None)\<rparr>))"

section \<open>The files REST routes\<close>

definition files_get :: "server \<Rightarrow> string \<Rightarrow> (string \<rightharpoonup> string)" where
  "files_get st sessionId = hgetall st (filesKey sessionId)"

definition files_save ::
  "server \<Rightarrow> string \<Rightarrow> string option \<Rightarrow> string option \<Rightarrow> nat \<times> server" where
  "files_save st sessionId filename content =
     (if \<not> truthy filename \<or> content = None then (400, st)
      else let fn = the filename; c = the content;
               st1 = hset st (filesKey sessionId) fn c
           in (200, io_in_emit st1 sessionId (FileUpdated fn c)))"

section \<open>Requests processed in order\<close>

datatype request =
    Join socket_id "string option" "string option"
  | FileUpdate socket_id "string option" "string option" string
  | FileCreate socket_id "string option" "string option" "string option"
  | FileDelete socket_id "string option" "string option"
  | Chat socket_id nat "string option" "string option" "string option"
  | Disconnect socket_id
  | FilesSave string "string option" "string option"

fun step :: "request \<Rightarrow> server \<Rightarrow> server" where
  "step (Join k s u) st = on_join st k s u"
| "step (FileUpdate k s f c) st = on_file_update st k s f c"
| "step (FileCreate k s f c) st = on_file_create st k s f c"
| "step (FileDelete k s f) st = on_file_delete st k s f"
| "step (Chat k now s u t) st = on_chat_message st k now s u t"
| "step (Disconnect k) st = on_disconnect st k"
| "step (FilesSave s f c) st = snd (files_save st s f c)"

definition process :: "request list \<Rightarrow> server \<Rightarrow> server" where
  "process rs st = fold step rs st"

section \<open>Handlers that wait for the store\<close>

text \<open>
  A handler hands a command to the store and waits for the answer; meanwhile other
  handlers run. The store executes commands in the order they were handed over, so a
  command takes effect, and a read sees the store, at the moment the handler issues it.
  A handler is thus a chain of pieces, each run without interruption: \<open>start\<close> runs a
  handler up to its first \<^verbatim>\<open>await\<close>, and \<open>resume\<close> runs the next piece of a waiting
  handler. \<open>cont\<close> is what a waiting handler remembers: for a join, the socket, session
  and user name, then the files it has read, then the users it has read.
\<close>

datatype cont =
    JoinFiles socket_id string string
  | JoinUsers socket_id string string "string \<rightharpoonup> string"
  | JoinEmit socket_id string string "string \<rightharpoonup> string" "string set"
  | UpdateEmit socket_id string string string
  | CreateEmit string string string
  | DeleteEmit string string
  | LeftEmit socket_id string string
  | SaveEmit string string string

fun start :: "request \<Rightarrow> server \<Rightarrow> server \<times> cont option" where
  "start (Join k s u) st =
     (let sid = dflt ''default'' s; un = dflt ''Anonymous'' u
      in (join_sadd st k sid un, Some (JoinFiles k sid un)))"
| "start (FileUpdate k s f c) st =
     (let sid = dflt ''default'' s in
      if \<not> truthy f then (st, None)
      else (hset st (filesKey sid) (the f) c, Some (UpdateEmit k sid (the f) c)))"
| "start (FileCreate k s f c) st =
     (let sid = dflt ''default'' s; c' = dflt [] c in
      if \<not> truthy f then (st, None)
      else (hset st (filesKey sid) (the f) c', Some (CreateEmit sid (the f) c')))"
| "start (FileDelete k s f) st =
     (let sid = dflt ''default'' s in
      if \<not> truthy f then (st, None)
      else (hdel st (filesKey sid) (the f), Some (DeleteEmit sid (the f))))"
| "start (Chat k now s u t) st = (on_chat_message st k now s u t, None)"
| "start (Disconnect k) st =
     (let st0 = st\<lparr>rooms := (\<lambda>r. rooms st r - {k})\<rparr> in
      case socketUser st0 k of
        None \<Rightarrow> (st0, None)
      | Some (sid, un) \<Rightarrow> (srem st0 (usersKey sid) un, Some (LeftEmit k sid un)))"
| "start (FilesSave s f c) st =
     (if \<not> truthy f \<or> c = None then (st, None)
      else (hset st (filesKey s) (the f) (the c), Some (SaveEmit s (the f) (the c))))"

fun resume :: "cont \<Rightarrow> server \<Rightarrow> server \<times> cont option" where
  "resume (JoinFiles k sid un) st = (st, Some (JoinUsers k sid un (hgetall st (filesKey sid))))"
| "resume (JoinUsers k sid un files) st =
     (st, Some (JoinEmit k sid un files (smembers st (usersKey sid))))"
| "resume (JoinEmit k sid un files users) st = (join_emit st k sid un files users, None)"
| "resume (UpdateEmit k sid fn c) st = (socket_to_emit st k sid (FileUpdated fn c), None)"
| "resume (CreateEmit sid fn c) st = (io_in_emit st sid (FileCreated fn c), None)"
| "resume (DeleteEmit sid fn) st = (io_in_emit st sid (FileDeleted fn), None)"
| "resume (LeftEmit k sid un) st =
     (let st2 = socket_to_emit st k sid (UserLeft un)
      in (st2\<lparr>socketUser := (socketUser st2)(k := None)\<rparr>, None))"
| "resume (SaveEmit sid fn c) st = (io_in_emit st sid (FileUpdated fn c), None)"

text \<open>
  The server together with its waiting handlers, each under a number. A schedule is a list
  of events: \<open>Start t r\<close> lets request \<open>r\<close> arrive and runs its handler, as number
  \<open>t\<close>, up to its first \<^verbatim>\<open>await\<close>; \<open>Resume t\<close> runs the next piece of handler \<open>t\<close>
  (and does nothing when \<open>t\<close> is not waiting).
\<close>

record sys =
  srv :: server
  tasks :: "nat \<rightharpoonup> cont"

datatype sched = Start nat request | Resume nat

fun task_of :: "sched \<Rightarrow> nat" where
  "task_of (Start t r) = t"
| "task_of (Resume t) = t"

fun exec :: "sched \<Rightarrow> sys \<Rightarrow> sys" where
  "exec (Start t r) y =
     (case start r (srv y) of (st', c) \<Rightarrow> \<lparr>srv = st', tasks = (tasks y)(t := c)\<rparr>)"
| "exec (Resume t) y =
     (case tasks y t of
        None \<Rightarrow> y
      | Some c \<Rightarrow> (case resume c (srv y) of (st', c') \<Rightarrow> \<lparr>srv = st', tasks = (tasks y)(t := c')\<rparr>))"

definition run_sched :: "sched list \<Rightarrow> sys \<Rightarrow> sys" where
  "run_sched es y = fold exec es y"

section \<open>The chat box of the client\<close>

text \<open>
  \<^verbatim>\<open>sendChat\<close> of the React client (\<^verbatim>\<open>src/App.js\<close>): the message the client emits on
  \<^verbatim>\<open>chat:message\<close>, or \<open>None\<close> when it returns before emitting. The message
  identifier and the client's own clock reading are not part of what the server forwards.
\<close>

definition sendChat :: "string \<Rightarrow> string \<Rightarrow> string \<Rightarrow> (string option \<times> string option \<times> string option) option" where
  "sendChat sessionId userName text' =
     (if \<not> truthy (Some text') then None
      else Some (Some sessionId, Some userName, Some text'))"

section \<open>The run route\<close>

text \<open>
  What lies outside the program is a parameter: the working directory, the platform,
  \<^verbatim>\<open>JAVA_HOME\<close>, the two functions of Node's \<^verbatim>\<open>path\<close> module the route calls,
  what a child process started by \<^verbatim>\<open>exec\<close> hands to its callback, and whether
  creating a directory or writing a file at a path throws (with which message).
\<close>

record exec_cb =
  err :: "string option"
  stdout :: string
  stderr :: string

record cmd_result =
  ok :: bool
  out :: string

record env =
  cwd :: string
  isWindows :: bool
  JAVA_HOME :: "string option"
  path_join :: "string list \<Rightarrow> string"
  path_basename :: "string \<Rightarrow> string \<Rightarrow> string"
  child_exec :: "string \<Rightarrow> string \<Rightarrow> nat \<Rightarrow> exec_cb"
  fs_throws :: "string \<Rightarrow> string option"

text \<open>
  The part of the machine the route changes: the directories and files that exist, and
  the commands handed to \<^verbatim>\<open>exec\<close> so far (command line, working directory, timeout).
\<close>

record world =
  dirs :: "string set"
  disk :: "string \<rightharpoonup> string"
  spawned :: "(string \<times> string \<times> nat) list"

datatype body = ErrorBody string | RunBody string bool

text \<open>
  \<open>Respond status body\<close> is an HTTP response; \<open>Rejected msg\<close> is an exception that
  leaves the handler (thrown outside its \<^verbatim>\<open>try\<close>), so that the handler itself sends
  nothing.
\<close>

datatype outcome = Respond nat body | Rejected string

definition dq :: string where
  "dq = [CHR 0x22]"

definition BASE_TEMP :: "env \<Rightarrow> string" where
  "BASE_TEMP e = path_join e [cwd e, ''temp'']"

definition existsSync :: "world \<Rightarrow> string \<Rightarrow> bool" where
  "existsSync w p = (p \<in> dirs w \<or> disk w p \<noteq> None)"

definition ensure_dir :: "env \<Rightarrow> world \<Rightarrow> string \<Rightarrow> (string \<times> world) + world" where
  "ensure_dir e w folder =
     (if existsSync w folder then Inr w
      else case fs_throws e folder of
             Some msg \<Rightarrow> Inl (msg, w)
           | None \<Rightarrow> Inr (w\<lparr>dirs := insert folder (dirs w)\<rparr>))"

definition writeTempFile ::
  "env \<Rightarrow> world \<Rightarrow> string \<Rightarrow> string \<Rightarrow> string \<Rightarrow> (string \<times> world) + (string \<times> world)" where
  "writeTempFile e w folder filename content =
     (case ensure_dir e w folder of
        Inl x \<Rightarrow> Inl x
      | Inr w1 \<Rightarrow>
          (let p = path_join e [folder, filename] in
           case fs_throws e p of
             Some msg \<Rightarrow> Inl (msg, w1)
           | None \<Rightarrow> Inr (p, w1\<lparr>disk := (disk w1)(p \<mapsto> content)\<rparr>)))"

definition runCommand :: "env \<Rightarrow> world \<Rightarrow> string \<Rightarrow> string \<Rightarrow> nat \<Rightarrow> cmd_result \<times> world" where
  "runCommand e w command dir timeoutMs =
     (let cb = child_exec e command dir timeoutMs;
          r = (case err cb of
                 Some msg \<Rightarrow> \<lparr>ok = False, out = (if stderr cb \<noteq> [] then stderr cb else msg)\<rparr>
               | None \<Rightarrow> \<lparr>ok = True, out = stdout cb\<rparr>)
      in (r, w\<lparr>spawned := spawned w @ [(command, dir, timeoutMs)]\<rparr>))"

text \<open>\<^verbatim>\<open>filename || "main.py"\<close>: the filename unless it is absent or empty.\<close>

definition or_default :: "string option \<Rightarrow> string \<Rightarrow> string" where
  "or_default v d = (if truthy v then the v else d)"

subsection \<open>The pattern that finds the public class\<close>

text \<open>
  \<^verbatim>\<open>/public\s+class\s+([A-Za-z_]\w*)/\<close>. \<open>is_space\<close> is \<^verbatim>\<open>\s\<close> on code units below
  256, \<open>is_word\<close> is \<^verbatim>\<open>\w\<close>. Both \<^verbatim>\<open>\s+\<close> are followed by something that is not
  white space and \<^verbatim>\<open>\w*\<close> by nothing, so the greedy choice is the only one that can
  succeed. \<open>match_here\<close> tries the pattern at the start of the text and yields the
  captured group; \<open>java_match\<close> takes the leftmost position where it succeeds.
\<close>

definition is_space :: "char \<Rightarrow> bool" where
  "is_space c = (let n = (of_char c :: nat) in (9 \<le> n \<and> n \<le> 13) \<or> n = 32 \<or> n = 160)"

definition is_ident_start :: "char \<Rightarrow> bool" where
  "is_ident_start c = (let n = (of_char c :: nat) in
     (65 \<le> n \<and> n \<le> 90) \<or> (97 \<le> n \<and> n \<le> 122) \<or> n = 95)"

definition is_word :: "char \<Rightarrow> bool" where
  "is_word c = (let n = (of_char c :: nat) in
     (65 \<le> n \<and> n \<le> 90) \<or> (97 \<le> n \<and> n \<le> 122) \<or> (48 \<le> n \<and> n \<le> 57) \<or> n = 95)"

fun strip_prefix :: "string \<Rightarrow> string \<Rightarrow> string option" where
  "strip_prefix [] s = Some s"
| "strip_prefix (p # ps) [] = None"
| "strip_prefix (p # ps) (c # cs) = (if p = c then strip_prefix ps cs else None)"

definition spaces_then :: "string \<Rightarrow> string option" where
  "spaces_then s = (if takeWhile is_space s = [] then None else Some (dropWhile is_space s))"

definition match_here :: "string \<Rightarrow> string option" where
  "match_here s =
     (case strip_prefix ''public'' s of
        None \<Rightarrow> None
      | Some r1 \<Rightarrow>
          (case spaces_then r1 of
             None \<Rightarrow> None
           | Some r2 \<Rightarrow>
               (case strip_prefix ''class'' r2 of
                  None \<Rightarrow> None
                | Some r3 \<Rightarrow>
                    (case spaces_then r3 of
                       None \<Rightarrow> None
                     | Some r4 \<Rightarrow>
                         (case r4 of
                            [] \<Rightarrow> None
                          | c # cs \<Rightarrow>
                              if is_ident_start c then Some (c # takeWhile is_word cs)
                              else None)))))"

fun java_match :: "string \<Rightarrow> string option" where
  "java_match [] = match_here []"
| "java_match (c # cs) =
     (case match_here (c # cs) of Some m \<Rightarrow> Some m | None \<Rightarrow> java_match cs)"

subsection \<open>The branches of the route\<close>

definition className_of :: "env \<Rightarrow> string \<Rightarrow> string option \<Rightarrow> string" where
  "className_of e code filename =
     (case java_match code of
        Some m \<Rightarrow> m
      | None \<Rightarrow> (if truthy filename then path_basename e (the filename) ''.java'' else ''Main''))"

definition javac_of :: "env \<Rightarrow> string" where
  "javac_of e =
     (if truthy (JAVA_HOME e)
      then dq @ path_join e [the (JAVA_HOME e), ''bin'', if isWindows e then ''javac.exe'' else ''javac''] @ dq
      else ''javac'')"

definition javaCmd_of :: "env \<Rightarrow> string" where
  "javaCmd_of e =
     (if truthy (JAVA_HOME e)
      then dq @ path_join e [the (JAVA_HOME e), ''bin'', if isWindows e then ''java.exe'' else ''java''] @ dq
      else ''java'')"

definition outExe_of :: "env \<Rightarrow> string \<Rightarrow> string" where
  "outExe_of e sessionTemp =
     (if isWindows e then sessionTemp @ [CHR 0x5C] @ ''main.exe'' else sessionTemp @ ''/a.out'')"

type_synonym attempt = "(string \<times> world) + (outcome \<times> world)"

definition run_script :: "env \<Rightarrow> world \<Rightarrow> string \<Rightarrow> string \<Rightarrow> string \<Rightarrow> string \<Rightarrow> attempt" where
  "run_script e w sessionTemp interpreter sourceFile code =
     (case writeTempFile e w sessionTemp sourceFile code of
        Inl x \<Rightarrow> Inl x
      | Inr (filePath, w1) \<Rightarrow>
          (let cmd = interpreter @ '' '' @ dq @ filePath @ dq;
               (result, w2) = runCommand e w1 cmd sessionTemp 15000
           in Inr (Respond 200 (RunBody (out result) (ok result)), w2)))"

definition run_java :: "env \<Rightarrow> world \<Rightarrow> string \<Rightarrow> string option \<Rightarrow> string \<Rightarrow> attempt" where
  "run_java e w sessionTemp filename code =
     (let className = className_of e code filename;
          javaFileName = className @ ''.java''
      in case writeTempFile e w sessionTemp javaFileName code of
           Inl x \<Rightarrow> Inl x
         | Inr (filePath, w1) \<Rightarrow>
             (let compileCmd = javac_of e @ '' '' @ dq @ filePath @ dq;
                  (compileResult, w2) = runCommand e w1 compileCmd sessionTemp 10000
              in if \<not> ok compileResult
                 then Inr (Respond 200 (RunBody (out compileResult) False), w2)
                 else (let runCmd = javaCmd_of e @ '' -cp '' @ dq @ sessionTemp @ dq @ '' '' @ className;
                           (runResult, w3) = runCommand e w2 runCmd sessionTemp 10000
                       in Inr (Respond 200 (RunBody (out runResult) (ok runResult)), w3))))"

definition run_native :: "env \<Rightarrow> world \<Rightarrow> string \<Rightarrow> string \<Rightarrow> string option \<Rightarrow> string \<Rightarrow> attempt" where
  "run_native e w sessionTemp language filename code =
     (let ext = (if language = ''c'' then ''c'' else ''cpp'');
          sourceFile = or_default filename (''main.'' @ ext)
      in case writeTempFile e w sessionTemp sourceFile code of
           Inl x \<Rightarrow> Inl x
         | Inr (filePath, w1) \<Rightarrow>
             (let outExe = outExe_of e sessionTemp;
                  compiler = (if language = ''c'' then ''gcc'' else ''g++'');
                  compileCmd = compiler @ '' '' @ dq @ filePath @ dq @ '' -o '' @ dq @ outExe @ dq;
                  (compileResult, w2) = runCommand e w1 compileCmd sessionTemp 15000
              in if \<not> ok compileResult
                 then Inr (Respond 200 (RunBody (out compileResult) False), w2)
                 else (let runCmd = dq @ outExe @ dq;
                           (runResult, w3) = runCommand e w2 runCmd sessionTemp 10000
                       in Inr (Respond 200 (RunBody (out runResult) (ok runResult)), w3))))"

definition run_try :: "env \<Rightarrow> world \<Rightarrow> string \<Rightarrow> string \<Rightarrow> string option \<Rightarrow> string \<Rightarrow> attempt" where
  "run_try e w sessionTemp language filename code =
     (if language = ''python''
      then run_script e w sessionTemp ''python'' (or_default filename ''main.py'') code
      else if language = ''javascript'' \<or> language = ''node''
      then run_script e w sessionTemp ''node'' (or_default filename ''main.js'') code
      else if language = ''java''
      then run_java e w sessionTemp filename code
      else if language = ''c'' \<or> language = ''cpp''
      then run_native e w sessionTemp language filename code
      else if language = ''html''
      then Inr (Respond 200 (RunBody code True), w)
      else Inr (Respond 200 (RunBody ''Language not supported'' False), w))"

definition run_post ::
  "env \<Rightarrow> world \<Rightarrow> string option \<Rightarrow> string option \<Rightarrow> string option \<Rightarrow> string option
     \<Rightarrow> outcome \<times> world" where
  "run_post e w sessionId language filename code =
     (let sid = dflt ''default'' sessionId in
      if \<not> truthy language \<or> \<not> truthy code
      then (Respond 400 (ErrorBody ''language & code required''), w)
      else (let sessionTemp = path_join e [BASE_TEMP e, sid] in
            case ensure_dir e w sessionTemp of
              Inl (msg, w0) \<Rightarrow> (Rejected msg, w0)
            | Inr w0 \<Rightarrow>
                (case run_try e w0 sessionTemp (the language) filename (the code) of
                   Inl (msg, w1) \<Rightarrow> (Respond 500 (RunBody (''Server error: '' @ msg) False), w1)
                 | Inr r \<Rightarrow> r)))"

subsection \<open>A sample machine\<close>

text \<open>
  A concrete environment on which the route can be evaluated: names are joined with a
  slash, the base name of a plain file name is the name without the given extension, no
  file operation throws, and every command except the listed ones succeeds silently.
\<close>

fun slash_join :: "string list \<Rightarrow> string" where
  "slash_join [] = ''.''"
| "slash_join [x] = x"
| "slash_join (x # y # ys) = x @ ''/'' @ slash_join (y # ys)"

definition plain_basename :: "string \<Rightarrow> string \<Rightarrow> string" where
  "plain_basename p ext =
     (let b = rev (takeWhile (\<lambda>c. c \<noteq> CHR ''/'') (rev p)) in
      if ext \<noteq> [] \<and> length ext < length b \<and> drop (length b - length ext) b = ext
      then take (length b - length ext) b else b)"

definition sample_env :: "(string \<Rightarrow> exec_cb) \<Rightarrow> env" where
  "sample_env sh = \<lparr>cwd = ''/srv'', isWindows = False, JAVA_HOME = None,
     path_join = slash_join, path_basename = plain_basename,
     child_exec = (\<lambda>command dir timeoutMs. sh command),
     fs_throws = (\<lambda>p. None)\<rparr>"

definition quiet :: "string \<Rightarrow> exec_cb" where
  "quiet command = \<lparr>err = None, stdout = [], stderr = []\<rparr>"

definition empty_world :: world where
  "empty_world = \<lparr>dirs = {}, disk = Map.empty, spawned = []\<rparr>"

section \<open>Vocabulary of the statements\<close>

text \<open>
  \<open>new_emits st st'\<close> are the emit calls made between \<open>st\<close> and \<open>st'\<close>;
  \<open>delivered st st' k e\<close> says that one of them carries \<open>e\<close> to socket \<open>k\<close>.
\<close>

definition new_emits :: "server \<Rightarrow> server \<Rightarrow> (socket_id set \<times> event) list" where
  "new_emits st st' = drop (length (emitted st)) (emitted st')"

definition delivered :: "server \<Rightarrow> server \<Rightarrow> socket_id \<Rightarrow> event \<Rightarrow> bool" where
  "delivered st st' k e = list_ex (\<lambda>(to, e'). e' = e \<and> k \<in> to) (new_emits st st')"

text \<open>No hash of the store has a field with the empty name.\<close>

definition no_empty_name :: "server \<Rightarrow> bool" where
  "no_empty_name st = (\<forall>key. redis_hash st key [] = None)"

text \<open>
  \<open>targets S f r\<close>: request \<open>r\<close> asks to write file \<open>f\<close> of session \<open>S\<close> (by update,
  create or the save route). \<open>is_update_of S f r\<close>: \<open>r\<close> is a \<^verbatim>\<open>file:update\<close> for
  \<open>f\<close> in \<open>S\<close>; \<open>content_of r\<close> is the content it carries.
\<close>

fun targets :: "string \<Rightarrow> string \<Rightarrow> request \<Rightarrow> bool" where
  "targets S f (FileUpdate k s fn c) = (dflt ''default'' s = S \<and> fn = Some f)"
| "targets S f (FileCreate k s fn c) = (dflt ''default'' s = S \<and> fn = Some f)"
| "targets S f (FilesSave s fn c) = (s = S \<and> fn = Some f)"
| "targets S f _ = False"

fun is_update_of :: "string \<Rightarrow> string \<Rightarrow> request \<Rightarrow> bool" where
  "is_update_of S f (FileUpdate k s fn c) = (dflt ''default'' s = S \<and> fn = Some f)"
| "is_update_of S f _ = False"

fun content_of :: "request \<Rightarrow> string option" where
  "content_of (FileUpdate k s fn c) = Some c"
| "content_of _ = None"

text \<open>
  \<open>removes S U e y\<close>: in state \<open>y\<close>, event \<open>e\<close> takes user name \<open>U\<close> out of the
  presence set of session \<open>S\<close>, which only the arrival of a disconnect of a socket bound
  to \<open>S\<close> and \<open>U\<close> does. \<open>undisturbed S U es y\<close>: no event of \<open>es\<close>, run from \<open>y\<close>,
  does so.
\<close>

fun removes :: "string \<Rightarrow> string \<Rightarrow> sched \<Rightarrow> sys \<Rightarrow> bool" where
  "removes S U (Start t (Disconnect k)) y = (socketUser (srv y) k = Some (S, U))"
| "removes S U _ y = False"

fun undisturbed :: "string \<Rightarrow> string \<Rightarrow> sched list \<Rightarrow> sys \<Rightarrow> bool" where
  "undisturbed S U [] y = True"
| "undisturbed S U (e # es) y = (\<not> removes S U e y \<and> undisturbed S U es (exec e y))"

text \<open>A session that two sockets have joined, and one joined by a single user.\<close>

definition idle :: "server \<Rightarrow> sys" where
  "idle st = \<lparr>srv = st, tasks = Map.empty\<rparr>"

definition ann_joined :: server where
  "ann_joined = process [Join ''b'' (Some ''room'') (Some ''ann'')] init_server"


definition two_joined :: server where
  "two_joined = process [Join ''a'' (Some ''room'') (Some ''ann''),
                         Join ''b'' (Some ''room'') (Some ''bob'')] init_server"

text \<open>
  What the pattern means, without the matcher: \<open>captures s c\<close> says that \<open>s\<close> starts
  with \<^verbatim>\<open>public\<close>, white space, \<^verbatim>\<open>class\<close>, white space and the longest identifier
  \<open>c\<close>; \<open>leftmost s c\<close> says that the first position of \<open>s\<close> where the pattern
  matches captures \<open>c\<close>.
\<close>

definition captures :: "string \<Rightarrow> string \<Rightarrow> bool" where
  "captures s c \<longleftrightarrow>
     (\<exists>ws1 ws2 rest.
        s = ''public'' @ ws1 @ ''class'' @ ws2 @ c @ rest \<and>
        ws1 \<noteq> [] \<and> (\<forall>x\<in>set ws1. is_space x) \<and>
        ws2 \<noteq> [] \<and> (\<forall>x\<in>set ws2. is_space x) \<and>
        c \<noteq> [] \<and> is_ident_start (hd c) \<and> (\<forall>x\<in>set (tl c). is_word x) \<and>
        (rest = [] \<or> \<not> is_word (hd rest)))"

definition leftmost :: "string \<Rightarrow> string \<Rightarrow> bool" where
  "leftmost s c \<longleftrightarrow>
     (\<exists>n \<le> length s. captures (drop n s) c \<and> (\<forall>m < n. \<forall>c'. \<not> captures (drop m s) c'))"

text \<open>
  The session's working directory, whether it exists or can be created, and the world
  once it has been created.
\<close>

definition sessionTemp_of :: "env \<Rightarrow> string option \<Rightarrow> string" where
  "sessionTemp_of e sessionId = path_join e [BASE_TEMP e, dflt ''default'' sessionId]"

definition can_prepare :: "env \<Rightarrow> world \<Rightarrow> string \<Rightarrow> bool" where
  "can_prepare e w folder = (existsSync w folder \<or> fs_throws e folder = None)"

definition prepared :: "world \<Rightarrow> string \<Rightarrow> world" where
  "prepared w folder = (if existsSync w folder then w else w\<lparr>dirs := insert folder (dirs w)\<rparr>)"

definition registered :: "string list" where
  "registered = [''python'', ''javascript'', ''node'', ''java'', ''c'', ''cpp'', ''html'']"

definition compiled :: "string list" where
  "compiled = [''java'', ''c'', ''cpp'']"

text \<open>
  For a compiled language: the name of the source file the route writes, and the compile
  command with its timeout.
\<close>

definition sourceName_of :: "env \<Rightarrow> string \<Rightarrow> string option \<Rightarrow> string \<Rightarrow> string" where
  "sourceName_of e l filename code =
     (if l = ''java'' then className_of e code filename @ ''.java''
      else or_default filename (''main.'' @ (if l = ''c'' then ''c'' else ''cpp'')))"

definition compile_of :: "env \<Rightarrow> string \<Rightarrow> string \<Rightarrow> string \<Rightarrow> string \<times> nat" where
  "compile_of e l sessionTemp filePath =
     (if l = ''java'' then (javac_of e @ '' '' @ dq @ filePath @ dq, 10000)
      else ((if l = ''c'' then ''gcc'' else ''g++'') @ '' '' @ dq @ filePath @ dq @ '' -o '' @ dq
              @ outExe_of e sessionTemp @ dq, 15000))"

text \<open>Two shells whose every command fails: one writes nothing, one writes a diagnostic.\<close>

definition silent_failure :: "string \<Rightarrow> exec_cb" where
  "silent_failure command = \<lparr>err = Some ''Command failed'', stdout = [], stderr = []\<rparr>"

definition loud_failure :: "string \<Rightarrow> exec_cb" where
  "loud_failure command =
     \<lparr>err = Some ''Command failed'', stdout = [], stderr = ''error: class expected''\<rparr>"

text \<open>A machine on which no directory can be made and no file written.\<close>

definition unwritable_env :: env where
  "unwritable_env = (sample_env quiet)\<lparr>fs_throws := (\<lambda>p. Some ''EACCES: permission denied'')\<rparr>"


section \<open>Facts about the store and the handlers\<close>

lemma filesKey_eq [simp]: "filesKey a = filesKey b \<longleftrightarrow> a = b"
  by (simp add: filesKey_def sessionKey_def)

lemma usersKey_eq [simp]: "usersKey a = usersKey b \<longleftrightarrow> a = b"
  by (simp add: usersKey_def sessionKey_def)

lemma filesKey_not_usersKey: "filesKey a \<noteq> usersKey b"
proof
  assume "filesKey a = usersKey b"
  then have "rev (filesKey a) = rev (usersKey b)" by simp
  then show False by (simp add: filesKey_def usersKey_def)
qed

lemmas handler_defs = on_join_def join_sadd_def join_emit_def on_file_update_def on_file_create_def on_file_delete_def
  on_chat_message_def on_disconnect_def files_save_def hset_def hdel_def hgetall_def sadd_def
  srem_def smembers_def socket_join_def socket_emit_def socket_to_emit_def io_in_emit_def

lemma truthy_iff: "truthy v \<longleftrightarrow> (\<exists>s. v = Some s \<and> s \<noteq> [])"
  by (cases v) (simp_all add: truthy_def)

lemma new_emits_on_join:
  "new_emits st (on_join st k sessionId userName) =
     [({k}, SessionInit (redis_hash st (filesKey (dflt ''default'' sessionId)))
              (insert (dflt ''Anonymous'' userName)
                 (redis_set st (usersKey (dflt ''default'' sessionId))))),
      (rooms st (dflt ''default'' sessionId) - {k}, UserJoin (dflt ''Anonymous'' userName))]"
  by (simp add: new_emits_def handler_defs Let_def)

lemma step_emitted_prefix: "\<exists>es. emitted (step r st) = emitted st @ es"
  by (cases r) (auto simp: handler_defs Let_def split: option.splits)

lemma step_keeps_file:
  "\<not> targets S f r \<Longrightarrow> redis_hash st (filesKey S) f = None \<Longrightarrow>
   redis_hash (step r st) (filesKey S) f = None"
  by (cases r) (auto simp: handler_defs Let_def truthy_def split: option.splits)

lemma process_keeps_file:
  "list_all (\<lambda>r. \<not> targets S f r) rs \<Longrightarrow> redis_hash st (filesKey S) f = None \<Longrightarrow>
   redis_hash (process rs st) (filesKey S) f = None"
  unfolding process_def
  by (induction rs arbitrary: st) (simp_all add: step_keeps_file)

lemma step_no_empty_name: "no_empty_name st \<Longrightarrow> no_empty_name (step r st)"
  by (cases r) (auto simp: no_empty_name_def handler_defs Let_def truthy_def split: option.splits)

lemma process_no_empty_name: "no_empty_name st \<Longrightarrow> no_empty_name (process rs st)"
  unfolding process_def
  by (induction rs arbitrary: st) (simp_all add: step_no_empty_name)

lemma no_empty_name_init: "no_empty_name init_server"
  by (simp add: no_empty_name_def init_server_def)

lemma reachable_no_empty_name: "no_empty_name (process rs init_server)"
  by (rule process_no_empty_name) (rule no_empty_name_init)

lemma process_snoc: "process (rs @ [r]) st = step r (process rs st)"
  by (simp add: process_def)

lemma two_joined_rooms: "rooms two_joined ''room'' = {''a'', ''b''}"
  by (auto simp: two_joined_def process_def init_server_def handler_defs Let_def dflt_def)

lemma two_joined_users: "redis_set two_joined (usersKey ''room'') = {''ann'', ''bob''}"
  by (auto simp: two_joined_def process_def init_server_def handler_defs Let_def dflt_def)

lemma two_joined_files: "redis_hash two_joined key = Map.empty"
  by (simp add: two_joined_def process_def init_server_def handler_defs Let_def dflt_def)

section \<open>Last write wins\<close>

text \<open>
  C1. Let a non-empty sequence of \<^verbatim>\<open>file:update\<close> requests, all for file \<open>f\<close> (a
  non-empty name) of session \<open>S\<close>, be processed in order from any state, by any sockets.
  Afterwards the content stored for \<open>f\<close> in \<open>S\<close> is the content carried by the last
  request: every update overwrites, whatever was stored before, and none is rejected.
\<close>

theorem last_update_wins:
  assumes "f \<noteq> []" and "rs \<noteq> []" and "list_all (is_update_of S f) rs"
  shows "redis_hash (process rs st) (filesKey S) f = content_of (last rs)"
  using assms(2,3)
proof (induction rs rule: rev_induct)
  case Nil
  then show ?case by simp
next
  case (snoc r rs)
  from snoc.prems have "is_update_of S f r" by simp
  then obtain k s c where r: "r = FileUpdate k s (Some f) c" and s: "dflt ''default'' s = S"
    by (cases r) auto
  show ?case using assms(1) s
    by (simp add: process_snoc r handler_defs Let_def truthy_def)
qed

theorem last_update_wins_witness:
  "redis_hash (process [FileUpdate ''a'' None (Some ''f.py'') ''v1'',
                        FileUpdate ''b'' (Some ''default'') (Some ''f.py'') ''v2'',
                        FileUpdate ''a'' None (Some ''f.py'') ''v0''] init_server)
     (filesKey ''default'') ''f.py'' = Some ''v0''"
  using last_update_wins [of "''f.py''"
      "[FileUpdate ''a'' None (Some ''f.py'') ''v1'',
        FileUpdate ''b'' (Some ''default'') (Some ''f.py'') ''v2'',
        FileUpdate ''a'' None (Some ''f.py'') ''v0'']" "''default''" init_server]
  by (simp add: dflt_def)

section \<open>An update reaches the others, not its sender\<close>

text \<open>
  C7. A \<^verbatim>\<open>file:update\<close> from socket \<open>k\<close> with a non-empty filename \<open>f\<close> stores the
  new content for \<open>f\<close> in the session, and makes exactly one emit: \<^verbatim>\<open>file:updated\<close>
  with the filename and the new content, to the sockets of the session's room other than
  \<open>k\<close>. So an event is delivered to a socket exactly when it is that event and the socket
  is in the room and is not \<open>k\<close>; nothing goes back to \<open>k\<close>.
\<close>

theorem update_overwrites_and_tells_others:
  assumes "f \<noteq> []"
  shows "(let S = dflt ''default'' sessionId;
              st' = on_file_update st k sessionId (Some f) content
          in redis_hash st' (filesKey S) f = Some content \<and>
             new_emits st st' = [(rooms st S - {k}, FileUpdated f content)] \<and>
             (\<forall>k' e. delivered st st' k' e \<longleftrightarrow>
                       e = FileUpdated f content \<and> k' \<in> rooms st S \<and> k' \<noteq> k))"
  using assms
  by (auto simp: delivered_def new_emits_def handler_defs Let_def truthy_def)

theorem update_overwrites_and_tells_others_witness:
  "redis_hash (on_file_update two_joined ''a'' (Some ''room'') (Some ''f.py'') ''x = 1'')
     (filesKey ''room'') ''f.py'' = Some ''x = 1'' \<and>
   new_emits two_joined (on_file_update two_joined ''a'' (Some ''room'') (Some ''f.py'') ''x = 1'')
     = [({''b''}, FileUpdated ''f.py'' ''x = 1'')] \<and>
   \<not> delivered two_joined (on_file_update two_joined ''a'' (Some ''room'') (Some ''f.py'') ''x = 1'')
       ''a'' (FileUpdated ''f.py'' ''x = 1'')"
proof -
  have "{''a'', ''b''} - {''a''} = {''b''}" by auto
  then show ?thesis
    using update_overwrites_and_tells_others
      [of "''f.py''" "Some ''room''" two_joined "''a''" "''x = 1''"]
    by (simp add: Let_def dflt_def two_joined_rooms)
qed

section \<open>A deleted file is not in the snapshot of a later join\<close>

text \<open>
  C8. Delete file \<open>f\<close> of session \<open>S\<close>, then process any requests none of which writes
  \<open>f\<close> in \<open>S\<close>, then let a socket join \<open>S\<close>. The join emits \<^verbatim>\<open>session:init\<close> to the
  joining socket with the files and users of the session as they are then, and \<open>f\<close> is
  not among the files. For the empty name, which the delete handler ignores, this holds
  because no handler ever stores a file with the empty name.
\<close>

theorem deleted_file_absent_from_snapshot:
  assumes "f \<noteq> [] \<or> no_empty_name st"
      and "dflt ''default'' sd = S" and "dflt ''default'' sj = S"
      and "list_all (\<lambda>r. \<not> targets S f r) rs"
  shows "(let st2 = process rs (on_file_delete st kd sd (Some f));
              U = dflt ''Anonymous'' userName
          in new_emits st2 (on_join st2 kj sj userName) =
               [({kj}, SessionInit (redis_hash st2 (filesKey S))
                         (insert U (redis_set st2 (usersKey S)))),
                (rooms st2 S - {kj}, UserJoin U)]
             \<and> redis_hash st2 (filesKey S) f = None)"
proof -
  let ?st1 = "on_file_delete st kd sd (Some f)"
  have "redis_hash ?st1 (filesKey S) f = None"
  proof (cases "f = []")
    case True
    with assms(1) have "no_empty_name st" by simp
    then show ?thesis using True
      by (simp add: on_file_delete_def truthy_def no_empty_name_def)
  next
    case False
    then show ?thesis using assms(2)
      by (simp add: handler_defs Let_def truthy_def)
  qed
  then have "redis_hash (process rs ?st1) (filesKey S) f = None"
    using assms(4) by (simp add: process_keeps_file)
  then show ?thesis using assms(2,3)
    by (simp add: new_emits_on_join Let_def)
qed

theorem deleted_file_absent_from_snapshot_witness:
  "(let st2 = process [FileCreate ''b'' (Some ''room'') (Some ''g.py'') None,
                       Chat ''b'' 5 (Some ''room'') (Some ''bob'') (Some ''hi'')]
                (on_file_delete
                   (on_file_create two_joined ''a'' (Some ''room'') (Some ''f.py'') (Some ''x''))
                   ''a'' (Some ''room'') (Some ''f.py''))
    in redis_hash st2 (filesKey ''room'') ''f.py'' = None \<and>
       redis_hash st2 (filesKey ''room'') ''g.py'' = Some [] \<and>
       hd (new_emits st2 (on_join st2 ''c'' (Some ''room'') (Some ''cy''))) =
         ({''c''}, SessionInit (redis_hash st2 (filesKey ''room''))
                     (insert ''cy'' (redis_set st2 (usersKey ''room'')))))"
  using deleted_file_absent_from_snapshot
    [of "''f.py''" "on_file_create two_joined ''a'' (Some ''room'') (Some ''f.py'') (Some ''x'')"
        "Some ''room''" "''room''" "Some ''room''"
        "[FileCreate ''b'' (Some ''room'') (Some ''g.py'') None,
          Chat ''b'' 5 (Some ''room'') (Some ''bob'') (Some ''hi'')]" "''a''" "Some ''cy''" "''c''"]
  by (simp add: Let_def dflt_def process_def handler_defs truthy_def)

section \<open>A mutation without a filename is dropped\<close>

text \<open>
  C9. When the filename of a \<^verbatim>\<open>file:update\<close>, \<^verbatim>\<open>file:create\<close> or
  \<^verbatim>\<open>file:delete\<close> message is absent or empty, the handler returns at once: the state
  after it is the state before it, so the stored files are unchanged and nothing has been
  emitted, to the sender or to anyone else.
\<close>

theorem falsy_filename_is_dropped:
  assumes "filename = None \<or> filename = Some []"
  shows "on_file_update st k sessionId filename content = st \<and>
         on_file_create st k sessionId filename content' = st \<and>
         on_file_delete st k sessionId filename = st"
  using assms
  by (auto simp: on_file_update_def on_file_create_def on_file_delete_def truthy_def Let_def)

theorem falsy_filename_is_dropped_witness:
  "on_file_update two_joined ''a'' (Some ''room'') (Some []) ''x'' = two_joined \<and>
   on_file_create two_joined ''a'' (Some ''room'') (Some []) (Some ''x'') = two_joined \<and>
   on_file_delete two_joined ''a'' (Some ''room'') (Some []) = two_joined \<and>
   new_emits two_joined (on_file_delete two_joined ''a'' (Some ''room'') (Some [])) = []"
  using falsy_filename_is_dropped [of "Some []" two_joined "''a''" "Some ''room''" "''x''" "Some ''x''"]
  by (simp add: new_emits_def)

section \<open>Waiting handlers\<close>

text \<open>
  A handler that is started and resumed with nothing in between does what the handler
  of the earlier section does; an event of another handler leaves a waiting handler as it
  is; and only the arrival of a disconnect takes a name out of a presence set.
\<close>

lemma uninterrupted:
  "srv (run_sched [Start t r, Resume t, Resume t, Resume t] \<lparr>srv = st, tasks = ts\<rparr>) = step r st"
  by (cases r)
     (auto simp: run_sched_def handler_defs Let_def split: option.splits prod.splits)

lemma exec_other_task: "task_of e \<noteq> j \<Longrightarrow> tasks (exec e y) j = tasks y j"
  by (cases e) (auto split: option.splits prod.splits)

lemma run_sched_other_tasks:
  "list_all (\<lambda>e. task_of e \<noteq> j) es \<Longrightarrow> tasks (run_sched es y) j = tasks y j"
  unfolding run_sched_def
  by (induction es arbitrary: y) (simp_all add: exec_other_task)

lemma resume_keeps_users: "redis_set (fst (resume c st)) = redis_set st"
  by (cases c) (simp_all add: handler_defs Let_def)

lemma start_keeps_user:
  assumes "U \<in> redis_set st (usersKey S)"
      and "\<forall>k. r = Disconnect k \<longrightarrow> socketUser st k \<noteq> Some (S, U)"
  shows "U \<in> redis_set (fst (start r st)) (usersKey S)"
  using assms
  by (cases r) (auto simp: handler_defs Let_def split: option.splits)

lemma exec_keeps_user:
  assumes "\<not> removes S U e y" and "U \<in> redis_set (srv y) (usersKey S)"
  shows "U \<in> redis_set (srv (exec e y)) (usersKey S)"
proof (cases e)
  case (Start t r)
  have "\<forall>k. r = Disconnect k \<longrightarrow> socketUser (srv y) k \<noteq> Some (S, U)"
    using assms(1) Start by auto
  then have "U \<in> redis_set (fst (start r (srv y))) (usersKey S)"
    using assms(2) start_keeps_user by blast
  then show ?thesis using Start by (auto split: prod.splits)
next
  case (Resume t)
  show ?thesis
  proof (cases "tasks y t")
    case None
    then show ?thesis using Resume assms(2) by simp
  next
    case (Some c)
    have "redis_set (fst (resume c (srv y))) = redis_set (srv y)" by (rule resume_keeps_users)
    then show ?thesis using Resume Some assms(2) by (auto split: prod.splits)
  qed
qed

lemma run_sched_keeps_user:
  "undisturbed S U es y \<Longrightarrow> U \<in> redis_set (srv y) (usersKey S) \<Longrightarrow>
   U \<in> redis_set (srv (run_sched es y)) (usersKey S)"
  unfolding run_sched_def
  by (induction es arbitrary: y) (simp_all add: exec_keeps_user)

lemma exec_start_join:
  "exec (Start j (Join k sessionId userName)) y =
     \<lparr>srv = join_sadd (srv y) k (dflt ''default'' sessionId) (dflt ''Anonymous'' userName),
      tasks = (tasks y)(j \<mapsto> JoinFiles k (dflt ''default'' sessionId) (dflt ''Anonymous'' userName))\<rparr>"
  by (simp add: Let_def)

lemma join_sadd_member: "un \<in> redis_set (join_sadd st k sid un) (usersKey sid)"
  by (simp add: join_sadd_def sadd_def socket_join_def Let_def)

lemma new_emits_join_emit:
  "new_emits st (join_emit st k sid un files users) =
     [({k}, SessionInit files users), (rooms st sid - {k}, UserJoin un)]"
  by (simp add: new_emits_def join_emit_def socket_emit_def socket_to_emit_def Let_def)

section \<open>The joining client sees itself\<close>

text \<open>
  C10, as the code has it. Let a join be handler \<open>j\<close>, and let events of other
  handlers run between its pieces: \<open>es1\<close> between \<^verbatim>\<open>sadd\<close> and \<^verbatim>\<open>hgetall\<close>,
  \<open>es2\<close> between \<^verbatim>\<open>hgetall\<close> and \<^verbatim>\<open>smembers\<close>, \<open>es3\<close> between \<^verbatim>\<open>smembers\<close>
  and the emits. The last piece emits \<^verbatim>\<open>session:init\<close> to the joining socket, with the
  files and the users as they were read, and then \<^verbatim>\<open>user:join\<close> to the others in the
  room. The joining user's name (\<^verbatim>\<open>Anonymous\<close> when the message has none) is among the
  users provided that, between \<^verbatim>\<open>sadd\<close> and \<^verbatim>\<open>smembers\<close>, no disconnect arrives of a
  socket bound to the same session and the same user name.
\<close>

theorem join_sees_own_name_unless_removed:
  assumes "list_all (\<lambda>e. task_of e \<noteq> j) (es1 @ es2 @ es3)"
  shows "(let S = dflt ''default'' sessionId; U = dflt ''Anonymous'' userName;
              y1 = exec (Start j (Join k sessionId userName)) y0;
              y2 = exec (Resume j) (run_sched es1 y1);
              y3 = exec (Resume j) (run_sched es2 y2);
              y4 = run_sched es3 y3;
              files = redis_hash (srv y2) (filesKey S);
              users = redis_set (srv y3) (usersKey S)
          in new_emits (srv y4) (srv (exec (Resume j) y4)) =
               [({k}, SessionInit files users), (rooms (srv y4) S - {k}, UserJoin U)] \<and>
             (undisturbed S U es1 y1 \<and> undisturbed S U es2 y2 \<longrightarrow> U \<in> users))"
proof -
  let ?S = "dflt ''default'' sessionId" and ?U = "dflt ''Anonymous'' userName"
  let ?y1 = "exec (Start j (Join k sessionId userName)) y0"
  let ?y1' = "run_sched es1 ?y1"
  let ?y2 = "exec (Resume j) ?y1'"
  let ?y2' = "run_sched es2 ?y2"
  let ?y3 = "exec (Resume j) ?y2'"
  let ?y4 = "run_sched es3 ?y3"
  let ?files = "redis_hash (srv ?y2) (filesKey ?S)"
  let ?users = "redis_set (srv ?y3) (usersKey ?S)"
  have o1: "list_all (\<lambda>e. task_of e \<noteq> j) es1" and o2: "list_all (\<lambda>e. task_of e \<noteq> j) es2"
    and o3: "list_all (\<lambda>e. task_of e \<noteq> j) es3"
    using assms by simp_all
  have t1: "tasks ?y1 j = Some (JoinFiles k ?S ?U)" by (simp add: Let_def)
  have t1': "tasks ?y1' j = Some (JoinFiles k ?S ?U)"
    using run_sched_other_tasks [OF o1] t1 by simp
  have y2: "srv ?y2 = srv ?y1'"
    and t2: "tasks ?y2 j = Some (JoinUsers k ?S ?U (redis_hash (srv ?y1') (filesKey ?S)))"
    using t1' by (simp_all add: hgetall_def)
  have t2': "tasks ?y2' j = Some (JoinUsers k ?S ?U (redis_hash (srv ?y1') (filesKey ?S)))"
    using run_sched_other_tasks [OF o2] t2 by simp
  have y3: "srv ?y3 = srv ?y2'"
    and t3: "tasks ?y3 j = Some (JoinEmit k ?S ?U (redis_hash (srv ?y1') (filesKey ?S))
                                   (redis_set (srv ?y2') (usersKey ?S)))"
    using t2' by (simp_all add: smembers_def)
  have t4: "tasks ?y4 j = Some (JoinEmit k ?S ?U ?files ?users)"
    using run_sched_other_tasks [OF o3] t3 y2 y3 by simp
  have "srv (exec (Resume j) ?y4) = join_emit (srv ?y4) k ?S ?U ?files ?users"
    using t4 by simp
  then have emits: "new_emits (srv ?y4) (srv (exec (Resume j) ?y4)) =
      [({k}, SessionInit ?files ?users), (rooms (srv ?y4) ?S - {k}, UserJoin ?U)]"
    by (simp add: new_emits_join_emit)
  have mem: "?U \<in> ?users" if u1: "undisturbed ?S ?U es1 ?y1" and u2: "undisturbed ?S ?U es2 ?y2"
  proof -
    have "?U \<in> redis_set (srv ?y1) (usersKey ?S)"
      by (simp add: Let_def join_sadd_member)
    then have "?U \<in> redis_set (srv ?y1') (usersKey ?S)"
      using run_sched_keeps_user [OF u1] by blast
    then have "?U \<in> redis_set (srv ?y2) (usersKey ?S)" using y2 by simp
    then have "?U \<in> redis_set (srv ?y2') (usersKey ?S)"
      using run_sched_keeps_user [OF u2] by blast
    then show ?thesis using y3 by simp
  qed
  show ?thesis
    unfolding Let_def using emits mem by blast
qed


theorem join_sees_own_name_unless_removed_witness:
  "(let y1 = exec (Start 1 (Join ''c'' (Some ''room'') (Some ''cy''))) (idle two_joined);
        y2 = exec (Resume 1) (run_sched [Start 2 (Disconnect ''b'')] y1);
        y3 = exec (Resume 1) (run_sched [Resume 2] y2)
    in undisturbed ''room'' ''cy'' [Start 2 (Disconnect ''b'')] y1 \<and>
       undisturbed ''room'' ''cy'' [Resume 2] y2 \<and>
       ''cy'' \<in> redis_set (srv y3) (usersKey ''room'') \<and>
       ''bob'' \<notin> redis_set (srv y3) (usersKey ''room''))"
  using join_sees_own_name_unless_removed
    [where j = 1 and ?es1.0 = "[Start 2 (Disconnect ''b'')]" and ?es2.0 = "[Resume 2]"
       and ?es3.0 = "[]" and sessionId = "Some ''room''" and userName = "Some ''cy''"
       and k = "''c''" and ?y0.0 = "idle two_joined"]
  by (simp add: Let_def dflt_def idle_def run_sched_def two_joined_def process_def
      init_server_def handler_defs)

text \<open>
  The claim as the specification words it fails when a second socket that bears the same
  name in the same session disconnects while the join waits for the store: user
  \<open>ann\<close> joins through socket \<open>a\<close>, socket \<open>b\<close> of the same name leaves before the
  join reads the users, and the join's \<^verbatim>\<open>session:init\<close> carries no user at all.
\<close>

theorem same_name_disconnect_hides_joiner:
  "new_emits ann_joined
     (srv (run_sched [Start 1 (Join ''a'' (Some ''room'') (Some ''ann'')),
                      Start 2 (Disconnect ''b''),
                      Resume 1, Resume 1, Resume 1] (idle ann_joined))) =
     [({''a''}, SessionInit Map.empty {}), ({}, UserJoin ''ann'')]"
  by (auto simp: new_emits_def idle_def run_sched_def ann_joined_def process_def
      init_server_def handler_defs Let_def dflt_def)

section \<open>Chat is relayed whatever the text\<close>

text \<open>
  C5, as the code has it. The \<^verbatim>\<open>chat:message\<close> handler tests nothing: for every text,
  empty or absent included, it makes exactly one emit, to the whole room of the session,
  carrying the user name and the text as received and the server's clock reading, and it
  leaves the store alone. The empty text is stopped in the client: \<^verbatim>\<open>sendChat\<close> emits
  nothing exactly when the text is empty.
\<close>

theorem chat_relays_every_text:
  "(let S = dflt ''default'' sessionId;
        st' = on_chat_message st k now sessionId userName text'
    in new_emits st st' = [(rooms st S, ChatMessage userName text' now)] \<and>
       redis_hash st' = redis_hash st \<and> redis_set st' = redis_set st) \<and>
   (sendChat S' U t = None \<longleftrightarrow> t = [])"
  by (simp add: new_emits_def on_chat_message_def io_in_emit_def sendChat_def truthy_def Let_def)

theorem chat_relays_every_text_witness:
  "new_emits two_joined (on_chat_message two_joined ''a'' 7 (Some ''room'') (Some ''ann'') (Some ''hi''))
     = [({''a'', ''b''}, ChatMessage (Some ''ann'') (Some ''hi'') 7)] \<and>
   sendChat ''room'' ''ann'' [] = None"
  using chat_relays_every_text [of "Some ''room''" two_joined "''a''" 7 "Some ''ann''" "Some ''hi''"
      "''room''" "''ann''" "[]"]
  by (simp add: Let_def dflt_def two_joined_rooms)

text \<open>
  The claim as the specification words it fails: a message whose text is empty, sent by
  socket \<open>a\<close>, is broadcast to both sockets of the room.
\<close>

theorem empty_chat_is_broadcast:
  "new_emits two_joined (on_chat_message two_joined ''a'' 7 (Some ''room'') (Some ''ann'') (Some []))
     = [({''a'', ''b''}, ChatMessage (Some ''ann'') (Some []) 7)]"
  by (simp add: new_emits_def on_chat_message_def io_in_emit_def Let_def dflt_def two_joined_rooms)


section \<open>The matcher finds what the pattern describes\<close>

lemma strip_prefix_iff: "strip_prefix p s = Some r \<longleftrightarrow> s = p @ r"
  by (induction p s rule: strip_prefix.induct) auto

lemma not_space_c: "\<not> is_space (CHR ''c'')"
  by (simp add: is_space_def)

lemma ident_start_not_space: "is_ident_start c \<Longrightarrow> \<not> is_space c"
  unfolding is_ident_start_def is_space_def Let_def by arith

lemma spaces_then_split:
  assumes "spaces_then s = Some r"
  shows "takeWhile is_space s \<noteq> []" and "r = dropWhile is_space s"
  using assms by (auto simp: spaces_then_def split: if_splits)

lemma all_takeWhile: "\<forall>x\<in>set (takeWhile P s). P x"
  by (auto dest: set_takeWhileD)

lemma dropWhile_stops: "dropWhile P s = [] \<or> \<not> P (hd (dropWhile P s))"
  by (induction s) auto

lemma takeWhile_all_then:
  assumes "\<forall>x\<in>set ws. P x" and "r = [] \<or> \<not> P (hd r)"
  shows "takeWhile P (ws @ r) = ws" and "dropWhile P (ws @ r) = r"
  using assms by (induction ws) (auto, (cases r; simp)+)

lemma spaces_then_iff:
  "spaces_then s = Some r \<longleftrightarrow>
     (\<exists>ws. ws \<noteq> [] \<and> (\<forall>x\<in>set ws. is_space x) \<and> s = ws @ r \<and> (r = [] \<or> \<not> is_space (hd r)))"
  (is "?L \<longleftrightarrow> ?R")
proof
  assume l: ?L
  let ?ws = "takeWhile is_space s"
  have "?ws \<noteq> []" and r: "r = dropWhile is_space s"
    using spaces_then_split [OF l] by blast+
  moreover have "\<forall>x\<in>set ?ws. is_space x" by (rule all_takeWhile)
  moreover have "s = ?ws @ r" unfolding r by simp
  moreover have "r = [] \<or> \<not> is_space (hd r)" unfolding r by (rule dropWhile_stops)
  ultimately show ?R by blast
next
  assume ?R
  then obtain ws where ws: "ws \<noteq> []" "\<forall>x\<in>set ws. is_space x" "s = ws @ r"
    "r = [] \<or> \<not> is_space (hd r)" by blast
  have "takeWhile is_space s = ws" "dropWhile is_space s = r"
    unfolding ws(3) using takeWhile_all_then [OF ws(2) ws(4)] by blast+
  then show ?L using ws(1) by (simp add: spaces_then_def)
qed

lemma match_here_split:
  assumes "match_here s = Some c"
  shows "\<exists>r1 r2 r3 r4. strip_prefix ''public'' s = Some r1 \<and> spaces_then r1 = Some r2 \<and>
           strip_prefix ''class'' r2 = Some r3 \<and> spaces_then r3 = Some r4 \<and>
           r4 \<noteq> [] \<and> is_ident_start (hd r4) \<and> c = hd r4 # takeWhile is_word (tl r4)"
  using assms unfolding match_here_def
  by (auto split: option.splits list.splits if_splits)

lemma match_here_sound:
  assumes "match_here s = Some c"
  shows "captures s c"
proof -
  from match_here_split [OF assms] obtain r1 r2 r3 r4 where
    1: "strip_prefix ''public'' s = Some r1" and 2: "spaces_then r1 = Some r2" and
    3: "strip_prefix ''class'' r2 = Some r3" and 4: "spaces_then r3 = Some r4" and
    5: "r4 \<noteq> []" "is_ident_start (hd r4)" "c = hd r4 # takeWhile is_word (tl r4)"
    by blast
  from 2 obtain ws1 where ws1: "ws1 \<noteq> []" "\<forall>x\<in>set ws1. is_space x" "r1 = ws1 @ r2"
    unfolding spaces_then_iff by blast
  from 4 obtain ws2 where ws2: "ws2 \<noteq> []" "\<forall>x\<in>set ws2. is_space x" "r3 = ws2 @ r4"
    unfolding spaces_then_iff by blast
  let ?rest = "dropWhile is_word (tl r4)"
  have "r4 = hd r4 # tl r4" using 5(1) by simp
  then have "r4 = hd r4 # (takeWhile is_word (tl r4) @ ?rest)" by simp
  then have r4: "r4 = c @ ?rest" unfolding 5(3) by simp
  have s1: "s = ''public'' @ r1" using 1 unfolding strip_prefix_iff .
  have s3: "r2 = ''class'' @ r3" using 3 unfolding strip_prefix_iff .
  have "r1 = ws1 @ ''class'' @ ws2 @ c @ ?rest"
    using ws1(3) s3 ws2(3) r4 by simp
  then have "s = ''public'' @ ws1 @ ''class'' @ ws2 @ c @ ?rest"
    using s1 by simp
  moreover have "\<forall>x\<in>set (tl c). is_word x" unfolding 5(3) using all_takeWhile by simp
  moreover have "?rest = [] \<or> \<not> is_word (hd ?rest)" by (rule dropWhile_stops)
  moreover have "c \<noteq> []" "is_ident_start (hd c)" using 5 by simp_all
  ultimately show ?thesis unfolding captures_def using ws1(1,2) ws2(1,2) by blast
qed

lemma match_here_complete:
  assumes "captures s c"
  shows "match_here s = Some c"
proof -
  from assms obtain ws1 ws2 rest where
    s: "s = ''public'' @ ws1 @ ''class'' @ ws2 @ c @ rest" and
    ws1: "ws1 \<noteq> []" "\<forall>x\<in>set ws1. is_space x" and
    ws2: "ws2 \<noteq> []" "\<forall>x\<in>set ws2. is_space x" and
    c: "c \<noteq> []" "is_ident_start (hd c)" "\<forall>x\<in>set (tl c). is_word x" and
    rest: "rest = [] \<or> \<not> is_word (hd rest)"
    unfolding captures_def by blast
  have 1: "strip_prefix ''public'' s = Some (ws1 @ ''class'' @ ws2 @ c @ rest)"
    unfolding strip_prefix_iff s by simp
  have "\<not> is_space (hd (''class'' @ ws2 @ c @ rest))" using not_space_c by simp
  then have 2: "spaces_then (ws1 @ ''class'' @ ws2 @ c @ rest) = Some (''class'' @ ws2 @ c @ rest)"
    unfolding spaces_then_iff using ws1 by blast
  have 3: "strip_prefix ''class'' (''class'' @ ws2 @ c @ rest) = Some (ws2 @ c @ rest)"
    unfolding strip_prefix_iff by simp
  have "\<not> is_space (hd (c @ rest))" using c(1,2) by (simp add: ident_start_not_space)
  then have 4: "spaces_then (ws2 @ c @ rest) = Some (c @ rest)"
    unfolding spaces_then_iff using ws2 by blast
  obtain x xs where cx: "c = x # xs" using c(1) by (cases c) auto
  have xs: "\<forall>y\<in>set xs. is_word y" using c(3) cx by simp
  have 5: "takeWhile is_word (xs @ rest) = xs"
    using takeWhile_all_then(1) [OF xs rest] .
  have x: "is_ident_start x" using c(2) cx by simp
  show ?thesis
    unfolding match_here_def 1 option.case 2 3 4
    by (simp add: cx 5 x)
qed

lemma match_here_iff: "match_here s = Some c \<longleftrightarrow> captures s c"
  using match_here_sound match_here_complete by blast

lemma match_here_None_iff: "match_here s = None \<longleftrightarrow> (\<forall>c. \<not> captures s c)"
proof
  assume n: "match_here s = None"
  show "\<forall>c. \<not> captures s c"
  proof (intro allI notI)
    fix c assume "captures s c"
    then have "match_here s = Some c" by (rule match_here_complete)
    with n show False by simp
  qed
next
  assume a: "\<forall>c. \<not> captures s c"
  show "match_here s = None"
  proof (cases "match_here s")
    case None
    then show ?thesis .
  next
    case (Some c)
    then have "captures s c" by (rule match_here_sound)
    with a show ?thesis by blast
  qed
qed

lemma leftmost_alt:
  "leftmost s c \<longleftrightarrow>
     (\<exists>n \<le> length s. match_here (drop n s) = Some c \<and> (\<forall>m < n. match_here (drop m s) = None))"
  unfolding leftmost_def match_here_iff match_here_None_iff ..

lemma leftmost_Cons_hit:
  assumes "match_here (a # s) = Some m"
  shows "leftmost (a # s) c \<longleftrightarrow> m = c"
proof
  assume "leftmost (a # s) c"
  then obtain n where n: "match_here (drop n (a # s)) = Some c"
    "\<forall>k < n. match_here (drop k (a # s)) = None"
    unfolding leftmost_alt by blast
  have "n = 0"
  proof (rule ccontr)
    assume "n \<noteq> 0"
    then have "match_here (drop 0 (a # s)) = None" using n(2) by blast
    then show False using assms by simp
  qed
  then show "m = c" using n(1) assms by simp
next
  assume "m = c"
  then have "match_here (drop 0 (a # s)) = Some c" using assms by simp
  then show "leftmost (a # s) c" unfolding leftmost_alt by blast
qed

lemma leftmost_Cons_miss:
  assumes "match_here (a # s) = None"
  shows "leftmost (a # s) c \<longleftrightarrow> leftmost s c"
proof
  assume "leftmost (a # s) c"
  then obtain n where n: "n \<le> length (a # s)" "match_here (drop n (a # s)) = Some c"
    "\<forall>k < n. match_here (drop k (a # s)) = None"
    unfolding leftmost_alt by blast
  from n(2) assms obtain j where j: "n = Suc j" by (cases n) auto
  have "j \<le> length s" using n(1) j by simp
  moreover have "match_here (drop j s) = Some c" using n(2) j by simp
  moreover have "\<forall>k < j. match_here (drop k s) = None"
  proof (intro allI impI)
    fix k assume "k < j"
    then have "match_here (drop (Suc k) (a # s)) = None" using n(3) j by blast
    then show "match_here (drop k s) = None" by simp
  qed
  ultimately show "leftmost s c" unfolding leftmost_alt by blast
next
  assume "leftmost s c"
  then obtain n where n: "n \<le> length s" "match_here (drop n s) = Some c"
    "\<forall>k < n. match_here (drop k s) = None"
    unfolding leftmost_alt by blast
  have "Suc n \<le> length (a # s)" using n(1) by simp
  moreover have "match_here (drop (Suc n) (a # s)) = Some c" using n(2) by simp
  moreover have "\<forall>k < Suc n. match_here (drop k (a # s)) = None"
  proof (intro allI impI)
    fix k assume k: "k < Suc n"
    show "match_here (drop k (a # s)) = None"
    proof (cases k)
      case 0
      then show ?thesis using assms by simp
    next
      case (Suc i)
      then show ?thesis using k n(3) by simp
    qed
  qed
  ultimately show "leftmost (a # s) c" unfolding leftmost_alt by blast
qed

lemma match_here_Nil: "match_here [] = None"
  by (simp add: match_here_def)

lemma java_match_leftmost: "java_match s = Some c \<longleftrightarrow> leftmost s c"
proof (induction s)
  case Nil
  show ?case by (simp add: leftmost_alt match_here_Nil)
next
  case (Cons a s)
  show ?case
  proof (cases "match_here (a # s)")
    case None
    then show ?thesis using Cons.IH leftmost_Cons_miss [OF None] by simp
  next
    case (Some m)
    then show ?thesis using leftmost_Cons_hit [OF Some] by simp
  qed
qed

lemma java_match_None_iff: "java_match s = None \<longleftrightarrow> (\<forall>c. \<not> leftmost s c)"
proof (cases "java_match s")
  case None
  then have "\<forall>c. \<not> leftmost s c" using java_match_leftmost [of s] by simp
  with None show ?thesis by simp
next
  case (Some c)
  then have "leftmost s c" using java_match_leftmost [of s c] by simp
  with Some show ?thesis by auto
qed

section \<open>Facts about the run route\<close>

lemma ensure_dir_ok:
  "can_prepare e w folder \<Longrightarrow> ensure_dir e w folder = Inr (prepared w folder)"
  by (auto simp: can_prepare_def ensure_dir_def prepared_def)

lemma existsSync_prepared: "existsSync (prepared w folder) folder"
  by (simp add: prepared_def existsSync_def)

lemma ensure_dir_again: "ensure_dir e (prepared w folder) folder = Inr (prepared w folder)"
  using existsSync_prepared by (simp add: ensure_dir_def)

lemma prepared_fields:
  "spawned (prepared w folder) = spawned w" "disk (prepared w folder) = disk w"
  by (simp_all add: prepared_def)

lemma writeTempFile_ok:
  "fs_throws e (path_join e [folder, name]) = None \<Longrightarrow>
   writeTempFile e (prepared w folder) folder name content =
     Inr (path_join e [folder, name],
          (prepared w folder)\<lparr>disk := (disk w)(path_join e [folder, name] \<mapsto> content)\<rparr>)"
  by (simp add: writeTempFile_def ensure_dir_again prepared_fields Let_def)

lemma run_post_valid:
  assumes "l \<noteq> []" and "src \<noteq> []" and "can_prepare e w (sessionTemp_of e sessionId)"
  shows "run_post e w sessionId (Some l) filename (Some src) =
          (case run_try e (prepared w (sessionTemp_of e sessionId)) (sessionTemp_of e sessionId)
                  l filename src of
             Inl (msg, w1) \<Rightarrow> (Respond 500 (RunBody (''Server error: '' @ msg) False), w1)
           | Inr r \<Rightarrow> r)"
  using assms ensure_dir_ok [OF assms(3)]
  by (simp add: run_post_def truthy_def sessionTemp_of_def Let_def)

lemma run_java_ok:
  assumes "fs_throws e (path_join e [T, className_of e src filename @ ''.java'']) = None"
  shows "run_java e (prepared w T) T filename src =
     (let className = className_of e src filename;
          p = path_join e [T, className @ ''.java''];
          compileCmd = javac_of e @ '' '' @ dq @ p @ dq;
          runCmd = javaCmd_of e @ '' -cp '' @ dq @ T @ dq @ '' '' @ className;
          w1 = (prepared w T)\<lparr>disk := (disk w)(p \<mapsto> src)\<rparr>
      in case err (child_exec e compileCmd T 10000) of
           Some m \<Rightarrow>
             Inr (Respond 200 (RunBody (out (fst (runCommand e w1 compileCmd T 10000))) False),
                  w1\<lparr>spawned := spawned w @ [(compileCmd, T, 10000)]\<rparr>)
         | None \<Rightarrow>
             Inr (Respond 200
                    (RunBody (out (fst (runCommand e w1 runCmd T 10000)))
                             (ok (fst (runCommand e w1 runCmd T 10000)))),
                  w1\<lparr>spawned := spawned w @ [(compileCmd, T, 10000), (runCmd, T, 10000)]\<rparr>))"
  using assms
  by (simp add: run_java_def writeTempFile_ok runCommand_def Let_def prepared_fields
      split: option.splits)

lemma run_java_failed:
  assumes "fs_throws e (path_join e [T, className_of e src filename @ ''.java'']) = None"
      and "err (child_exec e (javac_of e @ '' '' @ dq
              @ path_join e [T, className_of e src filename @ ''.java''] @ dq) T 10000) = Some m"
  shows "run_java e (prepared w T) T filename src =
     Inr (Respond 200 (RunBody
        (let cb = child_exec e (javac_of e @ '' '' @ dq
                    @ path_join e [T, className_of e src filename @ ''.java''] @ dq) T 10000
         in if stderr cb \<noteq> [] then stderr cb else m) False),
        (prepared w T)\<lparr>disk := (disk w)(path_join e [T, className_of e src filename @ ''.java''] \<mapsto> src),
           spawned := spawned w @ [(javac_of e @ '' '' @ dq
              @ path_join e [T, className_of e src filename @ ''.java''] @ dq, T, 10000)]\<rparr>)"
  using assms
  by (simp add: run_java_def writeTempFile_ok runCommand_def Let_def prepared_fields)

lemma run_native_failed:
  assumes "l = ''c'' \<or> l = ''cpp''"
      and "fs_throws e (path_join e [T, sourceName_of e l filename src]) = None"
      and "compile_of e l T (path_join e [T, sourceName_of e l filename src]) = (cmd, t)"
      and "err (child_exec e cmd T t) = Some m"
  shows "run_native e (prepared w T) T l filename src =
     Inr (Respond 200 (RunBody
        (if stderr (child_exec e cmd T t) \<noteq> [] then stderr (child_exec e cmd T t) else m) False),
        (prepared w T)\<lparr>disk := (disk w)(path_join e [T, sourceName_of e l filename src] \<mapsto> src),
           spawned := spawned w @ [(cmd, T, t)]\<rparr>)"
proof -
  have name: "sourceName_of e l filename src =
      or_default filename (''main.'' @ (if l = ''c'' then ''c'' else ''cpp''))"
    using assms(1) by (auto simp: sourceName_of_def)
  have cmd: "cmd = (if l = ''c'' then ''gcc'' else ''g++'') @ '' '' @ dq
                 @ path_join e [T, sourceName_of e l filename src] @ dq @ '' -o '' @ dq
                 @ outExe_of e T @ dq"
    and t: "t = 15000"
    using assms(1,3) by (auto simp: compile_of_def)
  have w: "writeTempFile e (prepared w T) T
             (or_default filename (''main.'' @ (if l = ''c'' then ''c'' else ''cpp''))) src =
     Inr (path_join e [T, sourceName_of e l filename src],
          (prepared w T)\<lparr>disk := (disk w)(path_join e [T, sourceName_of e l filename src] \<mapsto> src)\<rparr>)"
    using writeTempFile_ok [OF assms(2)] unfolding name .
  show ?thesis
    unfolding run_native_def Let_def w
    using assms(4) unfolding cmd t
    by (simp add: runCommand_def Let_def prepared_fields)
qed

lemma run_script_status:
  "run_script e w T interp name src = Inr r \<Longrightarrow> \<exists>b. fst r = Respond 200 b"
  by (auto simp: run_script_def Let_def split: sum.splits prod.splits)

lemma run_java_status:
  "run_java e w T filename src = Inr r \<Longrightarrow> \<exists>b. fst r = Respond 200 b"
  by (auto simp: run_java_def Let_def split: sum.splits prod.splits if_splits)

lemma run_native_status:
  "run_native e w T l filename src = Inr r \<Longrightarrow> \<exists>b. fst r = Respond 200 b"
  by (auto simp: run_native_def Let_def split: sum.splits prod.splits if_splits)

lemma run_try_status:
  assumes "run_try e w T l filename src = Inr r"
  shows "\<exists>b. fst r = Respond 200 b"
proof -
  consider "l = ''python''" | "l \<noteq> ''python''" "l = ''javascript'' \<or> l = ''node''"
    | "l = ''java''" | "l = ''c'' \<or> l = ''cpp''" | "l = ''html''" | "l \<notin> set registered"
    by (auto simp: registered_def)
  then show ?thesis
  proof cases
    case 1
    then have "run_script e w T ''python'' (or_default filename ''main.py'') src = Inr r"
      using assms by (simp add: run_try_def)
    then show ?thesis by (rule run_script_status)
  next
    case 2
    then have "run_script e w T ''node'' (or_default filename ''main.js'') src = Inr r"
      using assms by (simp add: run_try_def)
    then show ?thesis by (rule run_script_status)
  next
    case 3
    then have "run_java e w T filename src = Inr r"
      using assms by (simp add: run_try_def)
    then show ?thesis by (rule run_java_status)
  next
    case 4
    then have "run_native e w T l filename src = Inr r"
      using assms by (auto simp: run_try_def)
    then show ?thesis by (rule run_native_status)
  next
    case 5
    then show ?thesis using assms by (auto simp: run_try_def)
  next
    case 6
    then show ?thesis using assms by (auto simp: run_try_def registered_def)
  qed
qed

lemmas run_defs = run_post_def run_try_def run_script_def run_java_def run_native_def
  writeTempFile_def ensure_dir_def existsSync_def runCommand_def BASE_TEMP_def or_default_def
  className_of_def javac_of_def javaCmd_of_def outExe_of_def truthy_def dflt_def
  sample_env_def empty_world_def sessionTemp_of_def can_prepare_def


section \<open>A failed compile step ends the run\<close>

text \<open>
  C2, as the code has it. Take a run request for \<^verbatim>\<open>java\<close>, \<^verbatim>\<open>c\<close> or \<^verbatim>\<open>cpp\<close> with
  non-empty code, a working directory that exists or can be created, and a source file
  that can be written. If the compile command ends with an error (non-zero exit or
  timeout), the route answers with \<^verbatim>\<open>ok\<close> false and, as \<^verbatim>\<open>output\<close>, the error
  stream of the compiler when that is not empty and the message of the error otherwise;
  the compile command is the only command started, so the run step is never attempted.
\<close>

theorem compile_failure_ends_run:
  assumes "l \<in> set compiled" and "src \<noteq> []"
      and "can_prepare e w (sessionTemp_of e sessionId)"
      and "fs_throws e (path_join e [sessionTemp_of e sessionId, sourceName_of e l filename src]) = None"
      and "compile_of e l (sessionTemp_of e sessionId)
             (path_join e [sessionTemp_of e sessionId, sourceName_of e l filename src]) = (cmd, t)"
      and "err (child_exec e cmd (sessionTemp_of e sessionId) t) = Some m"
  shows "fst (run_post e w sessionId (Some l) filename (Some src)) =
           Respond 200 (RunBody
             (if stderr (child_exec e cmd (sessionTemp_of e sessionId) t) \<noteq> []
              then stderr (child_exec e cmd (sessionTemp_of e sessionId) t) else m) False) \<and>
         spawned (snd (run_post e w sessionId (Some l) filename (Some src))) =
           spawned w @ [(cmd, sessionTemp_of e sessionId, t)]"
proof -
  let ?T = "sessionTemp_of e sessionId"
  have l: "l = ''java'' \<or> l = ''c'' \<or> l = ''cpp''" using assms(1) by (simp add: compiled_def)
  have ne: "l \<noteq> []" using l by auto
  note rp = run_post_valid [OF ne assms(2,3), of filename]
  show ?thesis
  proof (cases "l = ''java''")
    case True
    have name: "sourceName_of e l filename src = className_of e src filename @ ''.java''"
      using True by (simp add: sourceName_of_def)
    have cmd: "cmd = javac_of e @ '' '' @ dq
                 @ path_join e [?T, className_of e src filename @ ''.java''] @ dq"
      and t: "t = 10000"
      using assms(5) True unfolding name by (simp_all add: compile_of_def)
    have rt: "run_try e (prepared w ?T) ?T l filename src =
                run_java e (prepared w ?T) ?T filename src"
      using True by (simp add: run_try_def)
    show ?thesis
      unfolding rp rt
      using run_java_failed [OF assms(4) [unfolded name] assms(6) [unfolded cmd t], of w]
      by (simp add: cmd t Let_def)
  next
    case False
    then have c: "l = ''c'' \<or> l = ''cpp''" using l by simp
    have rt: "run_try e (prepared w ?T) ?T l filename src =
                run_native e (prepared w ?T) ?T l filename src"
      using c by (auto simp: run_try_def)
    show ?thesis
      unfolding rp rt
      using run_native_failed [OF c assms(4,5,6), of w]
      by simp
  qed
qed

theorem compile_failure_ends_run_witness:
  "fst (run_post (sample_env loud_failure) empty_world (Some ''room'') (Some ''c'') None
          (Some ''int main('')) =
     Respond 200 (RunBody ''error: class expected'' False) \<and>
   spawned (snd (run_post (sample_env loud_failure) empty_world (Some ''room'') (Some ''c'') None
          (Some ''int main(''))) =
     [(''gcc '' @ dq @ ''/srv/temp/room/main.c'' @ dq @ '' -o '' @ dq @ ''/srv/temp/room/a.out'' @ dq,
       ''/srv/temp/room'', 15000)]"
  using compile_failure_ends_run [of "''c''" "''int main(''" "sample_env loud_failure" empty_world
      "Some ''room''" None
      "''gcc '' @ dq @ ''/srv/temp/room/main.c'' @ dq @ '' -o '' @ dq @ ''/srv/temp/room/a.out'' @ dq"
      15000 "''Command failed''"]
  by (simp add: compiled_def sourceName_of_def compile_of_def loud_failure_def run_defs)

text \<open>
  The claim as the specification words it fails when the compiler is stopped without
  having written to its error stream: the output is then the message of the error, not
  the (empty) captured stream.
\<close>

theorem silent_compile_failure_output:
  "stderr (child_exec (sample_env silent_failure)
             (''javac '' @ dq @ ''/srv/temp/default/Main.java'' @ dq) ''/srv/temp/default'' 10000) = [] \<and>
   spawned (snd (run_post (sample_env silent_failure) empty_world None (Some ''java'') None
                   (Some ''class A {''))) =
     [(''javac '' @ dq @ ''/srv/temp/default/Main.java'' @ dq, ''/srv/temp/default'', 10000)] \<and>
   fst (run_post (sample_env silent_failure) empty_world None (Some ''java'') None
          (Some ''class A {'')) = Respond 200 (RunBody ''Command failed'' False)"
  by (simp add: silent_failure_def run_defs match_here_def Let_def)

section \<open>Missing language or code\<close>

text \<open>
  C3, as the code has it. When the language or the code is absent or the empty string,
  the route answers 400 and leaves the machine as it was: no directory is made, no file
  written, no command started. When both are non-empty strings, the route never answers
  400.
\<close>

theorem bad_request_iff_falsy:
  "(language = None \<or> language = Some [] \<or> code = None \<or> code = Some [] \<longrightarrow>
      run_post e w sessionId language filename code =
        (Respond 400 (ErrorBody ''language & code required''), w)) \<and>
   ((\<exists>l c. language = Some l \<and> l \<noteq> [] \<and> code = Some c \<and> c \<noteq> []) \<longrightarrow>
      (\<forall>b. fst (run_post e w sessionId language filename code) \<noteq> Respond 400 b))"
proof (intro conjI impI)
  assume "language = None \<or> language = Some [] \<or> code = None \<or> code = Some []"
  then have "\<not> truthy language \<or> \<not> truthy code" by (auto simp: truthy_def)
  then show "run_post e w sessionId language filename code =
        (Respond 400 (ErrorBody ''language & code required''), w)"
    by (auto simp: run_post_def)
next
  assume "\<exists>l c. language = Some l \<and> l \<noteq> [] \<and> code = Some c \<and> c \<noteq> []"
  then obtain l c where lc: "language = Some l" "l \<noteq> []" "code = Some c" "c \<noteq> []" by blast
  let ?T = "path_join e [BASE_TEMP e, dflt ''default'' sessionId]"
  show "\<forall>b. fst (run_post e w sessionId language filename code) \<noteq> Respond 400 b"
  proof (cases "ensure_dir e w ?T")
    case (Inl x)
    then show ?thesis using lc
      by (simp add: run_post_def truthy_def Let_def split: prod.splits)
  next
    case (Inr w0)
    show ?thesis
    proof (cases "run_try e w0 ?T l filename c")
      case (Inl x)
      then show ?thesis using lc Inr
        by (simp add: run_post_def truthy_def Let_def split: prod.splits)
    next
      case r: (Inr r)
      then have "\<exists>b. fst r = Respond 200 b" by (rule run_try_status)
      then show ?thesis using lc Inr r
        by (auto simp: run_post_def truthy_def Let_def)
    qed
  qed
qed

theorem bad_request_iff_falsy_witness:
  "run_post (sample_env quiet) empty_world None None None (Some ''print(1)'') =
     (Respond 400 (ErrorBody ''language & code required''), empty_world) \<and>
   fst (run_post (sample_env quiet) empty_world None (Some ''html'') None (Some ''<p>hi</p>''))
     \<noteq> Respond 400 (ErrorBody ''language & code required'')"
  using bad_request_iff_falsy [of None "Some ''print(1)''" "sample_env quiet" empty_world None None]
    bad_request_iff_falsy [of "Some ''html''" "Some ''<p>hi</p>''" "sample_env quiet" empty_world
      None None]
  by simp

text \<open>
  The claim as the specification words it fails for a request that has both fields, the
  code being the empty string: the answer is 400.
\<close>

theorem empty_code_is_bad_request:
  "run_post (sample_env quiet) empty_world None (Some ''python'') None (Some []) =
     (Respond 400 (ErrorBody ''language & code required''), empty_world)"
  by (simp add: run_post_def truthy_def)

section \<open>A language that is not registered\<close>

text \<open>
  C4, as the code has it. Take a run request whose language is a non-empty string other
  than \<^verbatim>\<open>python\<close>, \<^verbatim>\<open>javascript\<close>, \<^verbatim>\<open>node\<close>, \<^verbatim>\<open>java\<close>, \<^verbatim>\<open>c\<close>, \<^verbatim>\<open>cpp\<close> and
  \<^verbatim>\<open>html\<close>. Whatever else it carries, the route starts no command and writes no file.
  When the code is absent or empty the answer is the 400 of the validation. When the
  code is not empty and the session's working directory exists or can be created, the
  route answers with status 200, \<^verbatim>\<open>ok\<close> false and the output
  \<^verbatim>\<open>Language not supported\<close>, and no exception leaves the handler.
\<close>

theorem unregistered_language:
  assumes "l \<noteq> []" and "l \<notin> set registered"
  shows "(code = None \<or> code = Some [] \<longrightarrow>
            run_post e w sessionId (Some l) filename code =
              (Respond 400 (ErrorBody ''language & code required''), w)) \<and>
         (\<forall>src. code = Some src \<and> src \<noteq> [] \<and> can_prepare e w (sessionTemp_of e sessionId) \<longrightarrow>
            run_post e w sessionId (Some l) filename code =
              (Respond 200 (RunBody ''Language not supported'' False),
               prepared w (sessionTemp_of e sessionId))) \<and>
         spawned (snd (run_post e w sessionId (Some l) filename code)) = spawned w \<and>
         disk (snd (run_post e w sessionId (Some l) filename code)) = disk w"
proof (intro conjI allI impI)
  assume "code = None \<or> code = Some []"
  then have "\<not> truthy code" by (auto simp: truthy_def)
  then show "run_post e w sessionId (Some l) filename code =
      (Respond 400 (ErrorBody ''language & code required''), w)"
    by (simp add: run_post_def)
next
  fix src
  assume a: "code = Some src \<and> src \<noteq> [] \<and> can_prepare e w (sessionTemp_of e sessionId)"
  then have src: "code = Some src" "src \<noteq> []"
    and cp: "can_prepare e w (sessionTemp_of e sessionId)" by simp_all
  show "run_post e w sessionId (Some l) filename code =
      (Respond 200 (RunBody ''Language not supported'' False),
       prepared w (sessionTemp_of e sessionId))"
    unfolding src(1) run_post_valid [OF assms(1) src(2) cp]
    using assms(2) by (simp add: run_try_def registered_def)
next
  have fall: "\<And>w0 T src. run_try e w0 T l filename src =
      Inr (Respond 200 (RunBody ''Language not supported'' False), w0)"
    using assms(2) by (simp add: run_try_def registered_def)
  show "spawned (snd (run_post e w sessionId (Some l) filename code)) = spawned w"
    by (auto simp: run_post_def fall ensure_dir_def Let_def split: option.splits)
  show "disk (snd (run_post e w sessionId (Some l) filename code)) = disk w"
    by (auto simp: run_post_def fall ensure_dir_def Let_def split: option.splits)
qed

theorem unregistered_language_witness:
  "run_post (sample_env quiet) empty_world None (Some ''ruby'') None (Some ''puts 1'') =
     (Respond 200 (RunBody ''Language not supported'' False),
      empty_world\<lparr>dirs := {''/srv/temp/default''}\<rparr>) \<and>
   run_post (sample_env quiet) empty_world None (Some ''ruby'') None (Some []) =
     (Respond 400 (ErrorBody ''language & code required''), empty_world) \<and>
   spawned (snd (run_post (sample_env quiet) empty_world None (Some ''ruby'') None (Some ''puts 1'')))
     = []"
  using unregistered_language [where l = "''ruby''" and code = "Some ''puts 1''"
      and e = "sample_env quiet" and w = empty_world and sessionId = None and filename = None]
    unregistered_language [where l = "''ruby''" and code = "Some []"
      and e = "sample_env quiet" and w = empty_world and sessionId = None and filename = None]
  by (simp add: registered_def prepared_def run_defs)

text \<open>
  The claim as the specification words it fails for a request that names an unregistered
  language and carries no code, which is answered 400, and on a machine where the
  session's working directory cannot be made, where the exception of \<^verbatim>\<open>mkdirSync\<close>,
  thrown before the \<^verbatim>\<open>try\<close>, leaves the handler.
\<close>

theorem unregistered_language_other_answers:
  "run_post (sample_env quiet) empty_world None (Some ''ruby'') None None =
     (Respond 400 (ErrorBody ''language & code required''), empty_world) \<and>
   run_post unwritable_env empty_world None (Some ''ruby'') None (Some ''puts 1'') =
     (Rejected ''EACCES: permission denied'', empty_world)"
  by (simp add: unwritable_env_def run_defs)

section \<open>The name of the Java source file\<close>

text \<open>
  C6, as the code has it. For a Java run request the class name is the identifier
  captured by the leftmost public class declaration of the source whenever the source
  has one, whether or not a filename was given; without such a declaration it is the
  base name of the filename (without \<^verbatim>\<open>.java\<close>) when a non-empty filename was given,
  and \<^verbatim>\<open>Main\<close> otherwise. The source is written to the file of that name with
  \<^verbatim>\<open>.java\<close> appended, that file is compiled, and when the compiler succeeds the class of
  that name is run.
\<close>

theorem java_name_from_source_first:
  assumes "src \<noteq> []" and "can_prepare e w (sessionTemp_of e sessionId)"
      and "name = (case java_match src of
                     Some c \<Rightarrow> c
                   | None \<Rightarrow> (case filename of
                                None \<Rightarrow> ''Main''
                              | Some fn \<Rightarrow> if fn = [] then ''Main''
                                           else path_basename e fn ''.java''))"
      and "fs_throws e (path_join e [sessionTemp_of e sessionId, name @ ''.java'']) = None"
  shows "(let T = sessionTemp_of e sessionId;
              p = path_join e [T, name @ ''.java''];
              compileCmd = javac_of e @ '' '' @ dq @ p @ dq;
              runCmd = javaCmd_of e @ '' -cp '' @ dq @ T @ dq @ '' '' @ name;
              w' = snd (run_post e w sessionId (Some ''java'') filename (Some src))
          in disk w' p = Some src \<and>
             spawned w' = spawned w @ (compileCmd, T, 10000) #
                (if err (child_exec e compileCmd T 10000) = None then [(runCmd, T, 10000)] else []))
         \<and> (\<forall>c. java_match src = Some c \<longleftrightarrow> leftmost src c)"
proof -
  let ?T = "sessionTemp_of e sessionId"
  have name: "className_of e src filename = name"
    unfolding assms(3) className_of_def truthy_def
    by (simp split: option.splits)
  have rt: "run_try e (prepared w ?T) ?T ''java'' filename src =
              run_java e (prepared w ?T) ?T filename src"
    by (simp add: run_try_def)
  have ne: "''java'' \<noteq> []" by simp
  have rj: "fs_throws e (path_join e [?T, className_of e src filename @ ''.java'']) = None"
    unfolding name using assms(4) .
  show ?thesis
    unfolding run_post_valid [OF ne assms(1,2)] rt run_java_ok [OF rj] name
    by (simp add: Let_def java_match_leftmost split: option.splits)
qed

theorem java_name_from_source_first_witness:
  "(let w' = snd (run_post (sample_env quiet) empty_world None (Some ''java'') (Some ''Bar.java'')
                    (Some ''class Foo {}''))
    in disk w' ''/srv/temp/default/Bar.java'' = Some ''class Foo {}'' \<and>
       spawned w' =
         [(''javac '' @ dq @ ''/srv/temp/default/Bar.java'' @ dq, ''/srv/temp/default'', 10000),
          (''java -cp '' @ dq @ ''/srv/temp/default'' @ dq @ '' Bar'', ''/srv/temp/default'', 10000)])"
  using java_name_from_source_first [of "''class Foo {}''" "sample_env quiet" empty_world None
      "''Bar''" "Some ''Bar.java''"]
  by (simp add: run_defs quiet_def match_here_def plain_basename_def Let_def)

text \<open>
  The claim as the specification words it fails for a request that gives a filename and
  whose source declares a public class of another name: the name comes from the source.
\<close>

theorem java_name_ignores_given_filename:
  "disk (snd (run_post (sample_env quiet) empty_world None (Some ''java'') (Some ''Bar.java'')
                (Some ''public class Foo {}''))) ''/srv/temp/default/Foo.java''
     = Some ''public class Foo {}'' \<and>
   disk (snd (run_post (sample_env quiet) empty_world None (Some ''java'') (Some ''Bar.java'')
                (Some ''public class Foo {}''))) ''/srv/temp/default/Bar.java'' = None"
  by (simp add: run_defs quiet_def match_here_def spaces_then_def is_space_def is_word_def
      is_ident_start_def Let_def)


end
